theory Spec2Isabelle
  imports Main "HOL-Library.Sublist"
begin

section \<open>Documents and the database\<close>

text \<open>
  The backend is an Express application over two Mongoose collections.  A state of the
  database is the two collections in insertion order, together with the source of fresh
  document identifiers.  An ObjectId is modelled as a natural number; a new document
  takes the next unused one.
\<close>

type_synonym objectId = nat

text \<open>A document of the \<open>User\<close> collection; \<open>password\<close> holds the bcrypt hash.\<close>

record user =
  user_id :: objectId
  username :: string
  password :: string

text \<open>A document of the \<open>Crush\<close> collection (\<open>crushSchema\<close>): both paths are required.\<close>

record crush =
  crush_id :: objectId
  name :: string
  userId :: objectId

record db =
  users :: "user list"
  crushes :: "crush list"
  next_id :: objectId

definition empty_db :: db where
  "empty_db = \<lparr>users = [], crushes = [], next_id = 0\<rparr>"

text \<open>
  An identifier arriving as text (a route parameter or a JSON field): either the 24 hex
  digits of an ObjectId, or text that Mongoose cannot cast to one.
\<close>

datatype id_string = Hex24 objectId | Malformed string

text \<open>The exceptions the handlers can meet.\<close>

datatype exn = TypeError | ValidationError | CastError | DuplicateKey | BcryptError

text \<open>The payload signed by \<open>jwt.sign({ id: user._id }, ...)\<close>.\<close>

datatype jwt = Jwt objectId

text \<open>
  JSON bodies of the responses: \<open>{message}\<close>, \<open>{error}\<close>, \<open>{message, error}\<close>,
  \<open>{token, userId}\<close>, a crush document, a list of them, and \<open>{matches}\<close>.
\<close>

datatype body =
    Message string
  | Error exn
  | MessageError string exn
  | Session jwt objectId
  | CrushDoc crush
  | CrushDocs "crush list"
  | Matches "string list"

text \<open>
  What a handler does with a request: it writes a response with a status and a body, or
  (a handler without \<open>try\<close>) its promise rejects and no response is written.
\<close>

datatype response = Resp nat body | Rejected exn

section \<open>Strings\<close>

text \<open>
  \<open>String.prototype.trim\<close> removes white space and line terminators from both ends.
  Characters are the code units below 256; of those, trim removes TAB, LF, VT, FF, CR,
  SPACE and NBSP.
\<close>

definition WhiteSpace :: "char \<Rightarrow> bool" where
  "WhiteSpace c =
     (c \<in> set [CHR 0x09, CHR 0x0A, CHR 0x0B, CHR 0x0C, CHR 0x0D, CHR 0x20, CHR 0xA0])"

definition trim :: "string \<Rightarrow> string" where
  "trim s = rev (dropWhile WhiteSpace (rev (dropWhile WhiteSpace s)))"

section \<open>Queries\<close>

text \<open>\<open>User.findOne({ username: u })\<close>: the first user with that username.\<close>

definition User_findOne :: "db \<Rightarrow> string \<Rightarrow> user option" where
  "User_findOne d u = find (\<lambda>x. username x = u) (users d)"

text \<open>\<open>User.findById(id)\<close>.\<close>

definition User_findById :: "db \<Rightarrow> objectId \<Rightarrow> user option" where
  "User_findById d i = find (\<lambda>x. user_id x = i) (users d)"

text \<open>\<open>Crush.find({ userId })\<close>: the crushes of an owner, in insertion order.\<close>

definition Crush_find :: "db \<Rightarrow> objectId \<Rightarrow> crush list" where
  "Crush_find d i = filter (\<lambda>c. userId c = i) (crushes d)"

text \<open>
  \<open>Crush.findOne({ userId: t, name: n })\<close>.  The filter value \<open>t\<close> may be
  \<open>undefined\<close> (here \<open>None\<close>): the driver sends it as \<open>null\<close>, which selects the
  documents without a \<open>userId\<close>; the path is required on every crush, so there is none.
\<close>

definition Crush_findOne :: "db \<Rightarrow> objectId option \<Rightarrow> string \<Rightarrow> crush option" where
  "Crush_findOne d t n =
     (case t of
        None \<Rightarrow> None
      | Some i \<Rightarrow> find (\<lambda>c. userId c = i \<and> name c = n) (crushes d))"

text \<open>\<open>.populate("userId")\<close>: each crush with the user document its \<open>userId\<close> refers to.\<close>

definition populate :: "db \<Rightarrow> crush list \<Rightarrow> (crush \<times> user option) list" where
  "populate d cs = map (\<lambda>c. (c, User_findById d (userId c))) cs"

section \<open>The User model\<close>

text \<open>
  Modelled from the spec: the main backend imports its User model from
  \<open>./models/User.js\<close>, which is not among the sources.  The spec's data model gives a
  user an identity assigned at creation, a username and a salted hash of the secret, and
  looks users up by the username as given.  Which documents the model's validators accept
  is left open: \<open>valid\<close> is a parameter.  \<open>hash\<close> stands for \<open>bcrypt.hash\<close> in the
  pre-save hook with the salt the call draws.  A unique index on the username, should the
  model declare one, is not modelled here: the handlers that save a user look the username
  up first, so in a server that takes one request at a time the index never fires.
\<close>

definition User_save ::
  "(string \<Rightarrow> string \<Rightarrow> bool) \<Rightarrow> (string \<Rightarrow> string) \<Rightarrow> db \<Rightarrow> string \<Rightarrow> string \<Rightarrow> exn + db" where
  "User_save valid hash d u p =
     (if \<not> valid u p then Inl ValidationError
      else Inr (d\<lparr>users := users d @ [\<lparr>user_id = next_id d, username = u, password = hash p\<rparr>],
                  next_id := Suc (next_id d)\<rparr>))"

section \<open>The main backend\<close>

text \<open>
  A request body is a JSON object; a field is absent (\<open>None\<close>) or a string, as the
  client sends it.
\<close>

text \<open>
  \<open>POST /api/register\<close>.  \<open>username.trim()\<close> on an absent field throws a TypeError
  inside the \<open>try\<close>; the \<open>catch\<close> answers 500.
\<close>

definition post_register ::
  "(string \<Rightarrow> string \<Rightarrow> bool) \<Rightarrow> (string \<Rightarrow> string) \<Rightarrow> db
     \<Rightarrow> string option \<times> string option \<Rightarrow> response \<times> db" where
  "post_register valid hash d req =
     (case fst req of
        None \<Rightarrow> (Resp 500 (Error TypeError), d)
      | Some un \<Rightarrow>
          (case snd req of
             None \<Rightarrow> (Resp 500 (Error TypeError), d)
           | Some pw \<Rightarrow>
               (let trimmedUsername = trim un; trimmedPassword = trim pw in
                case User_findOne d trimmedUsername of
                  Some existingUser \<Rightarrow> (Resp 400 (Message ''User already exists''), d)
                | None \<Rightarrow>
                    (case User_save valid hash d trimmedUsername trimmedPassword of
                       Inl err \<Rightarrow> (Resp 500 (Error err), d)
                     | Inr d' \<Rightarrow> (Resp 200 (Message ''User registered successfully''), d')))))"

text \<open>
  \<open>POST /api/login\<close>.  An absent username is sent as \<open>null\<close> and selects no user;
  \<open>bcrypt.compare\<close> throws on an absent password.
\<close>

definition post_login ::
  "(string \<Rightarrow> string \<Rightarrow> bool) \<Rightarrow> db \<Rightarrow> string option \<times> string option \<Rightarrow> response \<times> db" where
  "post_login compare d req =
     (case (case fst req of None \<Rightarrow> None | Some un \<Rightarrow> User_findOne d un) of
        None \<Rightarrow> (Resp 400 (Message ''Invalid username''), d)
      | Some usr \<Rightarrow>
          (case snd req of
             None \<Rightarrow> (Resp 500 (Error BcryptError), d)
           | Some pw \<Rightarrow>
               (if \<not> compare pw (password usr) then (Resp 400 (Message ''Invalid password''), d)
                else (Resp 200 (Session (Jwt (user_id usr)) (user_id usr)), d))))"

text \<open>
  \<open>POST /api/crush\<close>: no \<open>try\<close>.  \<open>save\<close> validates the document: \<open>name\<close> must be a
  non-empty string, \<open>userId\<close> must be present and cast to an ObjectId.  Nothing checks
  that the owner exists or that the name was not recorded before.
\<close>

definition post_crush :: "db \<Rightarrow> string option \<times> id_string option \<Rightarrow> response \<times> db" where
  "post_crush d req =
     (case req of
        (Some n, Some (Hex24 i)) \<Rightarrow>
          (if n = [] then (Rejected ValidationError, d)
           else (let newCrush = \<lparr>crush_id = next_id d, name = n, userId = i\<rparr> in
                 (Resp 200 (CrushDoc newCrush),
                  d\<lparr>crushes := crushes d @ [newCrush], next_id := Suc (next_id d)\<rparr>)))
      | _ \<Rightarrow> (Rejected ValidationError, d))"

text \<open>\<open>GET /api/crush/:userId\<close>: no \<open>try\<close>; a malformed id rejects with a CastError.\<close>

definition get_crush :: "db \<Rightarrow> id_string \<Rightarrow> response \<times> db" where
  "get_crush d p =
     (case p of
        Malformed s \<Rightarrow> (Rejected CastError, d)
      | Hex24 i \<Rightarrow> (Resp 200 (CrushDocs (Crush_find d i)), d))"

text \<open>\<open>POST /api/logout\<close>.\<close>

definition post_logout :: "db \<Rightarrow> response \<times> db" where
  "post_logout d = (Resp 200 (Message ''Logged out''), d)"

text \<open>
  The loop of \<open>GET /api/matches/:userId\<close>.  For each crush, in order: look the target up
  by name and take its id (\<open>u?._id\<close>, \<open>undefined\<close> when there is no such user); read
  the username of the requesting user (\<open>(await User.findById(userId)).username\<close>, a
  TypeError when there is no such user); look for a crush of the target on that
  username; push the name if there is one.
\<close>

fun check_mutual ::
  "db \<Rightarrow> objectId \<Rightarrow> (crush \<times> user option) list \<Rightarrow> string list \<Rightarrow> exn + string list" where
  "check_mutual d i [] matches = Inr matches"
| "check_mutual d i (c # cs) matches =
     (let target = map_option user_id (User_findOne d (name (fst c))) in
      case User_findById d i of
        None \<Rightarrow> Inl TypeError
      | Some me \<Rightarrow>
          (let reverse = Crush_findOne d target (username me) in
           if reverse \<noteq> None then check_mutual d i cs (matches @ [name (fst c)])
           else check_mutual d i cs matches))"

definition get_matches :: "db \<Rightarrow> id_string \<Rightarrow> response \<times> db" where
  "get_matches d p =
     (case p of
        Malformed s \<Rightarrow> (Resp 500 (Error CastError), d)
      | Hex24 i \<Rightarrow>
          (let myCrushes = populate d (Crush_find d i) in
           case check_mutual d i myCrushes [] of
             Inl err \<Rightarrow> (Resp 500 (Error err), d)
           | Inr matches \<Rightarrow> (Resp 200 (Matches matches), d)))"

text \<open>The routes of the main backend.\<close>

datatype request =
    Register "string option \<times> string option"
  | Login "string option \<times> string option"
  | AddCrush "string option \<times> id_string option"
  | ListCrushes id_string
  | Logout
  | GetMatches id_string

fun handle ::
  "(string \<Rightarrow> string \<Rightarrow> bool) \<Rightarrow> (string \<Rightarrow> string) \<Rightarrow> (string \<Rightarrow> string \<Rightarrow> bool)
     \<Rightarrow> db \<Rightarrow> request \<Rightarrow> response \<times> db" where
  "handle valid hash compare d (Register b) = post_register valid hash d b"
| "handle valid hash compare d (Login b) = post_login compare d b"
| "handle valid hash compare d (AddCrush b) = post_crush d b"
| "handle valid hash compare d (ListCrushes p) = get_crush d p"
| "handle valid hash compare d Logout = post_logout d"
| "handle valid hash compare d (GetMatches p) = get_matches d p"

text \<open>
  The states the main backend can be in: it starts empty and serves requests one after
  the other; each call of bcrypt may behave differently (the salt).
\<close>

inductive reachable :: "(string \<Rightarrow> string \<Rightarrow> bool) \<Rightarrow> db \<Rightarrow> bool"
  for valid :: "string \<Rightarrow> string \<Rightarrow> bool" where
  init: "reachable valid empty_db"
| step: "reachable valid d \<Longrightarrow> reachable valid (snd (handle valid hash compare d r))"

text \<open>Identities and usernames are unique, and every identity in use was handed out.\<close>

definition unique_users :: "db \<Rightarrow> bool" where
  "unique_users d =
     (distinct (map user_id (users d)) \<and> distinct (map username (users d))
      \<and> list_all (\<lambda>u. user_id u < next_id d) (users d))"

text \<open>No stored username has white space at either end.\<close>

definition usernames_trimmed :: "db \<Rightarrow> bool" where
  "usernames_trimmed d = list_all (\<lambda>u. trim (username u) = username u) (users d)"

section \<open>The hardened variant of the backend\<close>

text \<open>
  A second server of the repository (unnamed source part 001) has the same routes and the
  same imported User model.  Its register handler rejects fields that are empty after
  trimming, its login handler answers both failures alike, and its match loop skips a
  crush whose name is no username before it reads the requesting user.
\<close>

definition post_register_p1 ::
  "(string \<Rightarrow> string \<Rightarrow> bool) \<Rightarrow> (string \<Rightarrow> string) \<Rightarrow> db
     \<Rightarrow> string option \<times> string option \<Rightarrow> response \<times> db" where
  "post_register_p1 valid hash d req =
     (case fst req of
        None \<Rightarrow> (Resp 500 (Error TypeError), d)
      | Some un \<Rightarrow>
          (case snd req of
             None \<Rightarrow> (Resp 500 (Error TypeError), d)
           | Some pw \<Rightarrow>
               (let trimmedUsername = trim un; trimmedPassword = trim pw in
                if trimmedUsername = [] \<or> trimmedPassword = []
                then (Resp 400 (Message ''Username and password are required''), d)
                else
                  (case User_findOne d trimmedUsername of
                     Some existingUser \<Rightarrow> (Resp 400 (Message ''User already exists''), d)
                   | None \<Rightarrow>
                       (case User_save valid hash d trimmedUsername trimmedPassword of
                          Inl err \<Rightarrow> (Resp 500 (Error err), d)
                        | Inr d' \<Rightarrow> (Resp 200 (Message ''User registered successfully''), d'))))))"

definition post_login_p1 ::
  "(string \<Rightarrow> string \<Rightarrow> bool) \<Rightarrow> db \<Rightarrow> string option \<times> string option \<Rightarrow> response \<times> db" where
  "post_login_p1 compare d req =
     (case (case fst req of None \<Rightarrow> None | Some un \<Rightarrow> User_findOne d un) of
        None \<Rightarrow> (Resp 400 (Message ''Invalid username or password''), d)
      | Some usr \<Rightarrow>
          (case snd req of
             None \<Rightarrow> (Resp 500 (Error BcryptError), d)
           | Some pw \<Rightarrow>
               (if \<not> compare pw (password usr)
                then (Resp 400 (Message ''Invalid username or password''), d)
                else (Resp 200 (Session (Jwt (user_id usr)) (user_id usr)), d))))"

fun check_mutual_p1 ::
  "db \<Rightarrow> objectId \<Rightarrow> (crush \<times> user option) list \<Rightarrow> string list \<Rightarrow> exn + string list" where
  "check_mutual_p1 d i [] matches = Inr matches"
| "check_mutual_p1 d i (c # cs) matches =
     (case User_findOne d (name (fst c)) of
        None \<Rightarrow> check_mutual_p1 d i cs matches
      | Some usr \<Rightarrow>
          (case User_findById d i of
             None \<Rightarrow> Inl TypeError
           | Some me \<Rightarrow>
               (let reverse = Crush_findOne d (Some (user_id usr)) (username me) in
                if reverse \<noteq> None then check_mutual_p1 d i cs (matches @ [name (fst c)])
                else check_mutual_p1 d i cs matches)))"

definition get_matches_p1 :: "db \<Rightarrow> id_string \<Rightarrow> response \<times> db" where
  "get_matches_p1 d p =
     (case p of
        Malformed s \<Rightarrow> (Resp 500 (Error CastError), d)
      | Hex24 i \<Rightarrow>
          (let myCrushes = populate d (Crush_find d i) in
           case check_mutual_p1 d i myCrushes [] of
             Inl err \<Rightarrow> (Resp 500 (Error err), d)
           | Inr matches \<Rightarrow> (Resp 200 (Matches matches), d)))"

section \<open>The variant with inline models\<close>

text \<open>
  A third server (unnamed source part 000) declares its User schema inline:
  \<open>username\<close> is required, unique and trimmed, \<open>password\<close> is required, and a pre-save
  hook hashes the password.  The \<open>trim\<close> setter runs when a document is built and when a
  query filter is cast.
\<close>

definition User_findOne_p0 :: "db \<Rightarrow> string \<Rightarrow> user option" where
  "User_findOne_p0 d u = User_findOne d (trim u)"

definition User_save_p0 :: "(string \<Rightarrow> string) \<Rightarrow> db \<Rightarrow> string \<Rightarrow> string \<Rightarrow> exn + db" where
  "User_save_p0 hash d u p =
     (let u' = trim u in
      if u' = [] \<or> p = [] then Inl ValidationError
      else if User_findOne d u' \<noteq> None then Inl DuplicateKey
      else Inr (d\<lparr>users := users d @ [\<lparr>user_id = next_id d, username = u', password = hash p\<rparr>],
                  next_id := Suc (next_id d)\<rparr>))"

text \<open>\<open>!username || !password\<close> holds of an absent field and of the empty string.\<close>

definition post_register_p0 ::
  "(string \<Rightarrow> string) \<Rightarrow> db \<Rightarrow> string option \<times> string option \<Rightarrow> response \<times> db" where
  "post_register_p0 hash d req =
     (case req of
        (Some un, Some pw) \<Rightarrow>
          (if un = [] \<or> pw = [] then (Resp 400 (Message ''Username and password required''), d)
           else
             (case User_findOne_p0 d un of
                Some existingUser \<Rightarrow> (Resp 400 (Message ''Username already exists''), d)
              | None \<Rightarrow>
                  (case User_save_p0 hash d un pw of
                     Inl err \<Rightarrow> (Resp 500 (MessageError ''Server error'' err), d)
                   | Inr d' \<Rightarrow> (Resp 201 (Message ''User created successfully''), d'))))
      | _ \<Rightarrow> (Resp 400 (Message ''Username and password required''), d))"

definition post_login_p0 ::
  "(string \<Rightarrow> string \<Rightarrow> bool) \<Rightarrow> db \<Rightarrow> string option \<times> string option \<Rightarrow> response \<times> db" where
  "post_login_p0 compare d req =
     (case (case fst req of None \<Rightarrow> None | Some un \<Rightarrow> User_findOne_p0 d un) of
        None \<Rightarrow> (Resp 401 (Message ''Invalid credentials''), d)
      | Some usr \<Rightarrow>
          (case snd req of
             None \<Rightarrow> (Resp 500 (MessageError ''Server error'' BcryptError), d)
           | Some pw \<Rightarrow>
               (if \<not> compare pw (password usr) then (Resp 401 (Message ''Invalid credentials''), d)
                else (Resp 200 (Session (Jwt (user_id usr)) (user_id usr)), d))))"

section \<open>Example states\<close>

text \<open>A toy bcrypt: the hash marks the password, and compare checks the mark.\<close>

definition toy_hash :: "string \<Rightarrow> string" where
  "toy_hash p = CHR ''#'' # p"

definition toy_compare :: "string \<Rightarrow> string \<Rightarrow> bool" where
  "toy_compare p h = (h = CHR ''#'' # p)"

text \<open>A validator that requires both fields, as the inline schema does.\<close>

definition both_required :: "string \<Rightarrow> string \<Rightarrow> bool" where
  "both_required u p = (u \<noteq> [] \<and> p \<noteq> [])"

text \<open>
  alice (id 0) and bob (id 1) are registered.  alice recorded bob twice and a name that
  is nobody's; bob recorded alice; an id that is no user's recorded alice and bob.
\<close>

definition alice :: user where
  "alice = \<lparr>user_id = 0, username = ''alice'', password = ''#pw1''\<rparr>"

definition bob :: user where
  "bob = \<lparr>user_id = 1, username = ''bob'', password = ''#pw2''\<rparr>"

definition db1 :: db where
  "db1 = \<lparr>users = [alice, bob],
          crushes = [\<lparr>crush_id = 2, name = ''bob'', userId = 0\<rparr>,
                     \<lparr>crush_id = 3, name = ''nonexistent'', userId = 0\<rparr>,
                     \<lparr>crush_id = 4, name = ''alice'', userId = 1\<rparr>,
                     \<lparr>crush_id = 5, name = ''bob'', userId = 0\<rparr>,
                     \<lparr>crush_id = 6, name = ''alice'', userId = 9\<rparr>,
                     \<lparr>crush_id = 7, name = ''bob'', userId = 9\<rparr>],
          next_id = 8\<rparr>"

text \<open>The store after alice alone has registered.\<close>

definition db_alice :: db where
  "db_alice = \<lparr>users = [alice], crushes = [], next_id = 1\<rparr>"

section \<open>The match loop computes a filter\<close>

text \<open>The test of the loop for one name: the target is registered and recorded me.\<close>

definition reciprocated :: "db \<Rightarrow> user \<Rightarrow> string \<Rightarrow> bool" where
  "reciprocated d me n =
     (Crush_findOne d (map_option user_id (User_findOne d n)) (username me) \<noteq> None)"

lemma check_mutual_registered:
  "User_findById d i = Some me \<Longrightarrow>
   check_mutual d i cs acc = Inr (acc @ filter (reciprocated d me) (map (name \<circ> fst) cs))"
  by (induction cs arbitrary: acc) (simp_all add: reciprocated_def Let_def)

lemma check_mutual_unregistered:
  "User_findById d i = None \<Longrightarrow>
   check_mutual d i cs acc = (if cs = [] then Inr acc else Inl TypeError)"
  by (cases cs) (simp_all add: Let_def)

lemma check_mutual_p1_registered:
  "User_findById d i = Some me \<Longrightarrow>
   check_mutual_p1 d i cs acc = Inr (acc @ filter (reciprocated d me) (map (name \<circ> fst) cs))"
  by (induction cs arbitrary: acc)
     (simp_all add: reciprocated_def Crush_findOne_def Let_def split: option.splits)

lemma check_mutual_p1_unregistered:
  "User_findById d i = None \<Longrightarrow>
   check_mutual_p1 d i cs acc =
     (if list_ex (\<lambda>c. User_findOne d (name (fst c)) \<noteq> None) cs then Inl TypeError else Inr acc)"
  by (induction cs arbitrary: acc) (auto split: option.splits)

lemma populate_names: "map (name \<circ> fst) (populate d cs) = map name cs"
  by (simp add: populate_def comp_def)

lemma get_matches_registered:
  "User_findById d i = Some me \<Longrightarrow>
   get_matches d (Hex24 i) =
     (Resp 200 (Matches (filter (reciprocated d me) (map name (Crush_find d i)))), d)"
  by (simp add: get_matches_def check_mutual_registered populate_names)

lemma get_matches_p1_registered:
  "User_findById d i = Some me \<Longrightarrow>
   get_matches_p1 d (Hex24 i) =
     (Resp 200 (Matches (filter (reciprocated d me) (map name (Crush_find d i)))), d)"
  by (simp add: get_matches_p1_def check_mutual_p1_registered populate_names)

lemma get_matches_unregistered:
  "User_findById d i = None \<Longrightarrow>
   get_matches d (Hex24 i) =
     (if Crush_find d i = [] then (Resp 200 (Matches []), d) else (Resp 500 (Error TypeError), d))"
  by (simp add: get_matches_def check_mutual_unregistered populate_def)

lemma get_matches_p1_unregistered:
  "User_findById d i = None \<Longrightarrow>
   get_matches_p1 d (Hex24 i) =
     (if list_ex (\<lambda>c. User_findOne d (name c) \<noteq> None) (Crush_find d i)
      then (Resp 500 (Error TypeError), d) else (Resp 200 (Matches []), d))"
  by (simp add: get_matches_p1_def check_mutual_p1_unregistered populate_def list_ex_iff)

section \<open>Lookups in a store with unique keys\<close>

lemma find_None_image: "find (\<lambda>x. f x = k) xs = None \<longleftrightarrow> k \<notin> f ` set xs"
  by (induction xs) auto

lemma find_distinct_key:
  "distinct (map f xs) \<Longrightarrow> x \<in> set xs \<Longrightarrow> find (\<lambda>y. f y = f x) xs = Some x"
  by (induction xs) (auto simp: image_iff)

lemma User_findOne_None: "User_findOne d n = None \<longleftrightarrow> n \<notin> username ` set (users d)"
  by (simp add: User_findOne_def find_None_image)

lemma User_findOne_member:
  "unique_users d \<Longrightarrow> u \<in> set (users d) \<Longrightarrow> User_findOne d (username u) = Some u"
  by (simp add: User_findOne_def unique_users_def find_distinct_key)

lemma User_findById_member:
  "unique_users d \<Longrightarrow> u \<in> set (users d) \<Longrightarrow> User_findById d (user_id u) = Some u"
  by (simp add: User_findById_def unique_users_def find_distinct_key)

lemma Crush_findOne_member:
  "c \<in> set (crushes d) \<Longrightarrow> Crush_findOne d (Some (userId c)) (name c) \<noteq> None"
  by (auto simp: Crush_findOne_def find_None_iff)

lemma reciprocated_unknown: "n \<notin> username ` set (users d) \<Longrightarrow> \<not> reciprocated d me n"
  by (simp add: reciprocated_def User_findOne_None [symmetric] Crush_findOne_def)

lemma reciprocated_member:
  assumes "unique_users d" and "b \<in> set (users d)"
    and "c \<in> set (crushes d)" and "userId c = user_id b" and "name c = username a"
  shows "reciprocated d a (username b)"
  using Crush_findOne_member [OF assms(3)] assms
  by (simp add: reciprocated_def User_findOne_member)

lemma mutual_in_matches:
  assumes "unique_users d" and "a \<in> set (users d)" and "b \<in> set (users d)"
    and "ca \<in> set (crushes d)" and "userId ca = user_id a" and "name ca = username b"
    and "cb \<in> set (crushes d)" and "userId cb = user_id b" and "name cb = username a"
  shows "username b \<in> set (filter (reciprocated d a) (map name (Crush_find d (user_id a))))"
proof -
  have "reciprocated d a (username b)"
    using assms(1,3,7,8,9) by (rule reciprocated_member)
  moreover have "username b \<in> name ` set (Crush_find d (user_id a))"
    using assms(4,5,6) by (force simp: Crush_find_def)
  ultimately show ?thesis by simp
qed

lemmas example_defs =
  db1_def alice_def bob_def empty_db_def User_findOne_def User_findById_def Crush_find_def
  Crush_findOne_def populate_def get_matches_def get_matches_p1_def get_crush_def

lemma count_list_filter: "count_list (filter P xs) x = (if P x then count_list xs x else 0)"
  by (induction xs) auto

lemma count_list_map_filter:
  "count_list (map f (filter P xs)) k = length (filter (\<lambda>x. P x \<and> f x = k) xs)"
  by (induction xs) auto

lemma count_list_names:
  "count_list (map name (Crush_find d i)) n =
     length (filter (\<lambda>c. userId c = i \<and> name c = n) (crushes d))"
  by (simp add: Crush_find_def count_list_map_filter)

section \<open>Claims about the match resolver\<close>

text \<open>
  C1.  A name that is no registered user's username never occurs in the answer of
  \<open>GET /api/matches/:userId\<close>, whatever else the stores hold; and for a registered user
  the handler does answer with a list of matches.  Both the main backend and the
  hardened variant.
\<close>

theorem unknown_name_never_matches:
  assumes "n \<notin> username ` set (users d)"
  shows "(\<forall>ms. fst (get_matches d p) = Resp 200 (Matches ms) \<longrightarrow> n \<notin> set ms)
       \<and> (\<forall>ms. fst (get_matches_p1 d p) = Resp 200 (Matches ms) \<longrightarrow> n \<notin> set ms)
       \<and> (\<forall>a. User_findById d i = Some a \<longrightarrow>
            (\<exists>ms. fst (get_matches d (Hex24 i)) = Resp 200 (Matches ms) \<and> n \<notin> set ms)
          \<and> (\<exists>ms. fst (get_matches_p1 d (Hex24 i)) = Resp 200 (Matches ms) \<and> n \<notin> set ms))"
proof -
  have reg: "\<not> reciprocated d me n" for me
    using assms by (rule reciprocated_unknown)
  have main: "fst (get_matches d p) = Resp 200 (Matches ms) \<Longrightarrow> n \<notin> set ms" for ms
  proof (cases p)
    case (Hex24 j)
    assume r: "fst (get_matches d p) = Resp 200 (Matches ms)"
    show ?thesis
    proof (cases "User_findById d j")
      case None
      with r Hex24 show ?thesis
        by (auto simp: get_matches_unregistered split: if_splits)
    next
      case (Some me)
      with r Hex24 show ?thesis
        by (auto simp: get_matches_registered reg)
    qed
  next
    case (Malformed s)
    assume "fst (get_matches d p) = Resp 200 (Matches ms)"
    with Malformed show ?thesis by (simp add: get_matches_def)
  qed
  have variant: "fst (get_matches_p1 d p) = Resp 200 (Matches ms) \<Longrightarrow> n \<notin> set ms" for ms
  proof (cases p)
    case (Hex24 j)
    assume r: "fst (get_matches_p1 d p) = Resp 200 (Matches ms)"
    show ?thesis
    proof (cases "User_findById d j")
      case None
      with r Hex24 show ?thesis
        by (auto simp: get_matches_p1_unregistered split: if_splits)
    next
      case (Some me)
      with r Hex24 show ?thesis
        by (auto simp: get_matches_p1_registered reg)
    qed
  next
    case (Malformed s)
    assume "fst (get_matches_p1 d p) = Resp 200 (Matches ms)"
    with Malformed show ?thesis by (simp add: get_matches_p1_def)
  qed
  have total: "User_findById d i = Some a \<Longrightarrow>
      (\<exists>ms. fst (get_matches d (Hex24 i)) = Resp 200 (Matches ms) \<and> n \<notin> set ms)
    \<and> (\<exists>ms. fst (get_matches_p1 d (Hex24 i)) = Resp 200 (Matches ms) \<and> n \<notin> set ms)" for a
    by (simp add: get_matches_registered get_matches_p1_registered reg)
  from main variant total show ?thesis by blast
qed

theorem unknown_name_never_matches_witness:
  "''nonexistent'' \<notin> username ` set (users db1) \<and> User_findById db1 0 = Some alice
   \<and> fst (get_matches db1 (Hex24 0)) = Resp 200 (Matches [''bob'', ''bob''])
   \<and> fst (get_matches_p1 db1 (Hex24 0)) = Resp 200 (Matches [''bob'', ''bob''])"
  using unknown_name_never_matches [of "''nonexistent''" db1 "Hex24 0" 0]
  by (simp add: example_defs)

text \<open>
  C2.  Matching is symmetric.  In a store with unique identities and usernames, if a
  registered user a recorded the username of a registered user b and b recorded the
  username of a, then the matches of a contain the username of b and the matches of b
  contain the username of a.  Both the main backend and the hardened variant.
\<close>

theorem matching_symmetric:
  assumes "unique_users d" and "a \<in> set (users d)" and "b \<in> set (users d)"
    and "ca \<in> set (crushes d)" and "userId ca = user_id a" and "name ca = username b"
    and "cb \<in> set (crushes d)" and "userId cb = user_id b" and "name cb = username a"
  shows "(\<exists>ms. get_matches d (Hex24 (user_id a)) = (Resp 200 (Matches ms), d) \<and> username b \<in> set ms)
       \<and> (\<exists>ms. get_matches d (Hex24 (user_id b)) = (Resp 200 (Matches ms), d) \<and> username a \<in> set ms)
       \<and> (\<exists>ms. get_matches_p1 d (Hex24 (user_id a)) = (Resp 200 (Matches ms), d) \<and> username b \<in> set ms)
       \<and> (\<exists>ms. get_matches_p1 d (Hex24 (user_id b)) = (Resp 200 (Matches ms), d) \<and> username a \<in> set ms)"
proof -
  have fa: "User_findById d (user_id a) = Some a"
    using assms(1,2) by (rule User_findById_member)
  have fb: "User_findById d (user_id b) = Some b"
    using assms(1,3) by (rule User_findById_member)
  have ma: "username b \<in> set (filter (reciprocated d a) (map name (Crush_find d (user_id a))))"
    using assms by (rule mutual_in_matches)
  have mb: "username a \<in> set (filter (reciprocated d b) (map name (Crush_find d (user_id b))))"
    using assms(1,3,2,7,8,9,4,5,6) by (rule mutual_in_matches)
  show ?thesis
    using ma mb
    by (simp only: get_matches_registered [OF fa] get_matches_registered [OF fb]
          get_matches_p1_registered [OF fa] get_matches_p1_registered [OF fb]) blast
qed

theorem matching_symmetric_witness:
  "unique_users db1 \<and> alice \<in> set (users db1) \<and> bob \<in> set (users db1)
   \<and> get_matches db1 (Hex24 0) = (Resp 200 (Matches [''bob'', ''bob'']), db1)
   \<and> get_matches db1 (Hex24 1) = (Resp 200 (Matches [''alice'']), db1)
   \<and> get_matches_p1 db1 (Hex24 0) = (Resp 200 (Matches [''bob'', ''bob'']), db1)
   \<and> get_matches_p1 db1 (Hex24 1) = (Resp 200 (Matches [''alice'']), db1)"
  using matching_symmetric [of db1 alice bob
      "\<lparr>crush_id = 2, name = ''bob'', userId = 0\<rparr>" "\<lparr>crush_id = 4, name = ''alice'', userId = 1\<rparr>"]
  by (simp add: example_defs unique_users_def)

text \<open>
  C3, as the code has it.  No route answers NotFound.  For an id that is no registered
  user's, \<open>GET /api/matches/:userId\<close> answers 500 when the id is malformed; for a
  well-formed id the main backend answers with the empty list when no crush is owned by
  the id and with 500 otherwise, and the hardened variant answers 500 when an owned crush
  names a registered user and with the empty list otherwise.
\<close>

theorem unregistered_id_no_NotFound:
  assumes "User_findById d i = None"
  shows "get_matches d (Hex24 i) =
           ((if Crush_find d i = [] then Resp 200 (Matches []) else Resp 500 (Error TypeError)), d)
       \<and> get_matches_p1 d (Hex24 i) =
           ((if list_ex (\<lambda>c. User_findOne d (name c) \<noteq> None) (Crush_find d i)
             then Resp 500 (Error TypeError) else Resp 200 (Matches [])), d)
       \<and> get_matches d (Malformed s) = (Resp 500 (Error CastError), d)
       \<and> get_matches_p1 d (Malformed s) = (Resp 500 (Error CastError), d)"
  using assms
  by (simp add: get_matches_unregistered get_matches_p1_unregistered)
     (simp add: get_matches_def get_matches_p1_def)

theorem unregistered_id_no_NotFound_witness:
  "User_findById db1 9 = None
   \<and> get_matches db1 (Hex24 9) = (Resp 500 (Error TypeError), db1)
   \<and> get_matches_p1 db1 (Hex24 9) = (Resp 500 (Error TypeError), db1)
   \<and> get_matches db1 (Malformed ''me'') = (Resp 500 (Error CastError), db1)"
  using unregistered_id_no_NotFound [of db1 9 "''me''"]
  by (simp add: example_defs)

text \<open>
  The claim as the spec states it fails: in the empty store the id 7 is no user's, and the
  main backend answers 200 with an empty list of matches, not an error.
\<close>

theorem unregistered_id_counterexample:
  "User_findById empty_db 7 = None
   \<and> fst (get_matches empty_db (Hex24 7)) = Resp 200 (Matches [])"
  by (simp add: example_defs)

text \<open>
  C8.  \<open>GET /api/matches/:userId\<close> writes nothing: it hands back the store it was given,
  so asking again with no write in between gives the same answer.  Both the main backend
  and the hardened variant.
\<close>

theorem get_matches_idempotent:
  "snd (get_matches d p) = d
   \<and> get_matches (snd (get_matches d p)) p = get_matches d p
   \<and> snd (get_matches_p1 d p) = d
   \<and> get_matches_p1 (snd (get_matches_p1 d p)) p = get_matches_p1 d p"
proof -
  have m: "snd (get_matches d p) = d"
    by (simp add: get_matches_def split: id_string.splits sum.splits)
  have v: "snd (get_matches_p1 d p) = d"
    by (simp add: get_matches_p1_def split: id_string.splits sum.splits)
  show ?thesis by (simp add: m v)
qed

theorem get_matches_idempotent_witness:
  "get_matches db1 (Hex24 0) = (Resp 200 (Matches [''bob'', ''bob'']), db1)
   \<and> get_matches (snd (get_matches db1 (Hex24 0))) (Hex24 0) = (Resp 200 (Matches [''bob'', ''bob'']), db1)"
  using get_matches_idempotent [of db1 "Hex24 0"]
  by (simp add: example_defs)

text \<open>
  C10.  Whenever \<open>GET /api/matches/:userId\<close> answers with a list of matches, the id is
  well formed, \<open>GET /api/crush/:userId\<close> answers with the crushes owned by that id, and
  the matches are a subsequence of the names of those crushes, in their order.  Both the
  main backend and the hardened variant.
\<close>

theorem matches_subseq_of_crush_names:
  assumes "fst (get_matches d p) = Resp 200 (Matches ms) \<or> fst (get_matches_p1 d p) = Resp 200 (Matches ms)"
  shows "\<exists>i cs. p = Hex24 i \<and> fst (get_crush d p) = Resp 200 (CrushDocs cs)
           \<and> list_all (\<lambda>c. userId c = i) cs \<and> subseq ms (map name cs)"
proof (cases p)
  case (Malformed s)
  with assms show ?thesis by (simp add: get_matches_def get_matches_p1_def)
next
  case (Hex24 i)
  have own: "list_all (\<lambda>c. userId c = i) (Crush_find d i)"
    by (simp add: Crush_find_def list_all_iff)
  have sub: "subseq ms (map name (Crush_find d i))"
  proof (cases "User_findById d i")
    case None
    with assms Hex24 have "ms = []"
      by (auto simp: get_matches_unregistered get_matches_p1_unregistered split: if_splits)
    then show ?thesis by simp
  next
    case (Some me)
    with assms Hex24 have "ms = filter (reciprocated d me) (map name (Crush_find d i))"
      by (auto simp: get_matches_registered get_matches_p1_registered)
    then show ?thesis by simp
  qed
  from Hex24 own sub show ?thesis by (simp add: get_crush_def)
qed

theorem matches_subseq_of_crush_names_witness:
  "fst (get_matches db1 (Hex24 0)) = Resp 200 (Matches [''bob'', ''bob''])
   \<and> fst (get_crush db1 (Hex24 0)) =
       Resp 200 (CrushDocs [\<lparr>crush_id = 2, name = ''bob'', userId = 0\<rparr>,
                            \<lparr>crush_id = 3, name = ''nonexistent'', userId = 0\<rparr>,
                            \<lparr>crush_id = 5, name = ''bob'', userId = 0\<rparr>])
   \<and> subseq [''bob'', ''bob''] [''bob'', ''nonexistent'', ''bob'']"
  using matches_subseq_of_crush_names [of db1 "Hex24 0" "[''bob'', ''bob'']"]
  by (simp add: example_defs)

section \<open>Invariants of the store\<close>

lemma dropWhile_rev_head:
  assumes "xs = [] \<or> \<not> P (hd xs)"
  shows "dropWhile P (rev (dropWhile P (rev xs))) = rev (dropWhile P (rev xs))"
proof (cases "dropWhile P (rev xs)")
  case Nil
  show ?thesis unfolding Nil by simp
next
  case (Cons y ys)
  have "rev xs = takeWhile P (rev xs) @ dropWhile P (rev xs)" by simp
  then have "xs = rev (dropWhile P (rev xs)) @ rev (takeWhile P (rev xs))"
    by (metis rev_append rev_rev_ident)
  with Cons have split: "xs = (rev ys @ [y]) @ rev (takeWhile P (rev xs))" by simp
  then have "xs \<noteq> []" by auto
  moreover from split have "hd xs = hd (rev ys @ [y])"
    by (metis hd_append2 snoc_eq_iff_butlast)
  ultimately have "\<not> P (hd (rev ys @ [y]))" using assms by simp
  then have "dropWhile P (rev ys @ [y]) = rev ys @ [y]"
    by (cases "rev ys @ [y]") auto
  with Cons show ?thesis by simp
qed

lemma trim_idem: "trim (trim s) = trim s"
proof -
  have h: "dropWhile WhiteSpace s = [] \<or> \<not> WhiteSpace (hd (dropWhile WhiteSpace s))"
    using hd_dropWhile by blast
  have "dropWhile WhiteSpace (trim s) = trim s"
    unfolding trim_def using h by (rule dropWhile_rev_head)
  then show ?thesis
    by (simp add: trim_def)
qed

lemma User_save_invariant:
  assumes "unique_users d" and "usernames_trimmed d"
    and "User_findOne d (trim un) = None" and "User_save valid hash d (trim un) p = Inr d'"
  shows "unique_users d' \<and> usernames_trimmed d'"
proof -
  from assms(4) have d': "d' = d\<lparr>users := users d @ [\<lparr>user_id = next_id d, username = trim un, password = hash p\<rparr>],
                  next_id := Suc (next_id d)\<rparr>"
    by (auto simp: User_save_def split: if_splits)
  have fresh: "next_id d \<notin> user_id ` set (users d)"
    using assms(1) by (auto simp: unique_users_def list_all_iff)
  have new: "trim un \<notin> username ` set (users d)"
    using assms(3) by (simp add: User_findOne_None)
  have older: "list_all (\<lambda>u. user_id u < Suc (next_id d)) (users d)"
    using assms(1) by (auto simp: unique_users_def list_all_iff)
  show ?thesis
    using assms(1,2) fresh new older
    by (simp add: d' unique_users_def usernames_trimmed_def trim_idem)
qed

lemma post_register_invariant:
  assumes "unique_users d" and "usernames_trimmed d"
  shows "unique_users (snd (post_register valid hash d req))
       \<and> usernames_trimmed (snd (post_register valid hash d req))"
  using assms User_save_invariant [OF assms]
  by (auto simp: post_register_def Let_def split: option.splits sum.splits)

lemma post_crush_invariant:
  assumes "unique_users d" and "usernames_trimmed d"
  shows "unique_users (snd (post_crush d req)) \<and> usernames_trimmed (snd (post_crush d req))"
proof -
  have "list_all (\<lambda>u. user_id u < Suc (next_id d)) (users d)"
    using assms(1) by (auto simp: unique_users_def list_all_iff)
  then show ?thesis
    using assms
    by (auto simp: post_crush_def Let_def unique_users_def usernames_trimmed_def
             split: option.splits id_string.splits prod.splits)
qed

lemma handle_invariant:
  assumes "unique_users d" and "usernames_trimmed d"
  shows "unique_users (snd (handle valid hash compare d r))
       \<and> usernames_trimmed (snd (handle valid hash compare d r))"
proof (cases r)
  case (Register b)
  then show ?thesis using post_register_invariant [OF assms] by simp
next
  case (Login b)
  then show ?thesis using assms by (simp add: post_login_def split: option.splits)
next
  case (AddCrush b)
  then show ?thesis using post_crush_invariant [OF assms] by simp
next
  case (ListCrushes p)
  then show ?thesis using assms by (simp add: get_crush_def split: id_string.splits)
next
  case Logout
  then show ?thesis using assms by (simp add: post_logout_def)
next
  case (GetMatches p)
  then show ?thesis using assms
    by (simp add: get_matches_def split: id_string.splits sum.splits)
qed

lemma reachable_invariant:
  "reachable valid d \<Longrightarrow> unique_users d \<and> usernames_trimmed d"
proof (induction rule: reachable.induct)
  case init
  show ?case by (simp add: empty_db_def unique_users_def usernames_trimmed_def)
next
  case (step d hash compare r)
  then show ?case using handle_invariant by blast
qed

section \<open>Claims about registration and login\<close>

lemmas register_defs =
  post_register_def post_register_p1_def post_register_p0_def User_save_def User_save_p0_def
  User_findOne_p0_def trim_def WhiteSpace_def both_required_def toy_hash_def

lemma post_register_p1_empty:
  "trim un = [] \<or> trim pw = [] \<Longrightarrow>
   post_register_p1 valid hash d (Some un, Some pw) =
     (Resp 400 (Message ''Username and password are required''), d)"
  by (auto simp: post_register_p1_def)

lemma post_login_p0_uniform:
  assumes "fst req = Some un" and "snd req = Some pw"
    and "User_findOne_p0 d un = None \<or> (\<exists>u. User_findOne_p0 d un = Some u \<and> \<not> compare pw (password u))"
  shows "post_login_p0 compare d req = (Resp 401 (Message ''Invalid credentials''), d)"
  using assms by (auto simp: post_login_p0_def)

lemma post_login_p1_uniform:
  assumes "fst req = Some un" and "snd req = Some pw"
    and "User_findOne d un = None \<or> (\<exists>u. User_findOne d un = Some u \<and> \<not> compare pw (password u))"
  shows "post_login_p1 compare d req = (Resp 400 (Message ''Invalid username or password''), d)"
  using assms by (auto simp: post_login_p1_def)

lemma User_findOne_appended:
  "User_findOne (d\<lparr>users := users d @ [\<lparr>user_id = k, username = n, password = h\<rparr>], next_id := j\<rparr>) n \<noteq> None"
  by (simp add: User_findOne_None)

lemma post_register_conflict:
  "User_findOne d (trim un) \<noteq> None \<Longrightarrow>
   post_register valid hash d (Some un, Some pw) = (Resp 400 (Message ''User already exists''), d)"
  by (auto simp: post_register_def)

lemma post_register_success:
  "post_register valid hash d (Some un, Some pw) = (Resp 200 m, d') \<Longrightarrow>
   d' = d\<lparr>users := users d @ [\<lparr>user_id = next_id d, username = trim un, password = hash (trim pw)\<rparr>],
          next_id := Suc (next_id d)\<rparr>"
  by (auto simp: post_register_def User_save_def Let_def split: option.splits if_splits)

lemma post_register_twice:
  assumes "post_register valid hash d (Some un, Some pw) = (Resp 200 m, d')"
  shows "post_register valid hash' d' (Some un, Some pw') = (Resp 400 (Message ''User already exists''), d')"
  by (rule post_register_conflict) (simp add: post_register_success [OF assms] User_findOne_appended)

lemma post_register_p0_conflict:
  "un \<noteq> [] \<Longrightarrow> pw \<noteq> [] \<Longrightarrow> User_findOne d (trim un) \<noteq> None \<Longrightarrow>
   post_register_p0 hash d (Some un, Some pw) = (Resp 400 (Message ''Username already exists''), d)"
  by (auto simp: post_register_p0_def User_findOne_p0_def)

lemma post_register_p0_success:
  "post_register_p0 hash d (Some un, Some pw) = (Resp 201 m, d') \<Longrightarrow>
   un \<noteq> [] \<and> User_findOne d (trim un) = None \<and>
   d' = d\<lparr>users := users d @ [\<lparr>user_id = next_id d, username = trim un, password = hash pw\<rparr>],
          next_id := Suc (next_id d)\<rparr>"
  by (auto simp: post_register_p0_def User_save_p0_def User_findOne_p0_def Let_def
           split: option.splits if_splits)

lemma post_register_p0_twice:
  assumes "post_register_p0 hash d (Some un, Some pw) = (Resp 201 m, d')" and "pw' \<noteq> []"
  shows "post_register_p0 hash' d' (Some un, Some pw') = (Resp 400 (Message ''Username already exists''), d')"
  using post_register_p0_success [OF assms(1)] assms(2)
  by (intro post_register_p0_conflict) (simp_all add: User_findOne_appended)

lemma post_register_p0_distinct:
  assumes "distinct (map username (users d))"
  shows "distinct (map username (users (snd (post_register_p0 hash d req))))"
  using assms
  by (auto simp: post_register_p0_def User_save_p0_def User_findOne_p0_def Let_def User_findOne_None
           split: option.splits if_splits prod.splits)

lemma reachable_db_alice: "reachable both_required db_alice"
proof -
  have "reachable both_required
          (snd (handle both_required toy_hash toy_compare empty_db (Register (Some ''alice'', Some ''pw1''))))"
    using reachable.init by (rule reachable.step)
  then show ?thesis
    by (simp add: register_defs example_defs db_alice_def)
qed

text \<open>
  C9.  A register request of the main backend whose body lacks the username or the
  password is answered 500 (the TypeError of \<open>trim\<close> on the missing field, caught), not
  400, and the store is left as it was.
\<close>

theorem register_missing_field:
  assumes "fst req = None \<or> snd req = None"
  shows "post_register valid hash d req = (Resp 500 (Error TypeError), d)"
  using assms by (auto simp: post_register_def split: option.splits)

theorem register_missing_field_witness:
  "post_register both_required toy_hash db1 (None, Some ''pw'') = (Resp 500 (Error TypeError), db1)
   \<and> post_register both_required toy_hash db1 (Some ''carol'', None) = (Resp 500 (Error TypeError), db1)"
  using register_missing_field [of "(None, Some ''pw'')" both_required toy_hash db1]
    register_missing_field [of "(Some ''carol'', None)" both_required toy_hash db1]
  by simp

text \<open>
  C5.  The main backend's register handler trims but does not test for emptiness: a
  username of three spaces reaches \<open>save\<close> as the empty string.  With a model that
  requires both fields the answer is 500, with a model that accepts them the answer is 200
  and a user with the empty username is stored; in neither case is it 400.  The hardened
  variant answers 400 on the same request and stores nothing.
\<close>

theorem register_blank_username:
  "post_register both_required toy_hash empty_db (Some ''   '', Some ''pw'') =
     (Resp 500 (Error ValidationError), empty_db)
   \<and> post_register (\<lambda>u p. True) toy_hash empty_db (Some ''   '', Some ''pw'') =
     (Resp 200 (Message ''User registered successfully''),
      \<lparr>users = [\<lparr>user_id = 0, username = '''', password = ''#pw''\<rparr>], crushes = [], next_id = 1\<rparr>)
   \<and> post_register_p1 both_required toy_hash empty_db (Some ''   '', Some ''pw'') =
     (Resp 400 (Message ''Username and password are required''), empty_db)"
  by (simp add: register_defs example_defs)

text \<open>
  C4.  The main backend's login handler tells the two failures apart: an unknown username
  is answered 400 \<open>Invalid username\<close>, a known username with a wrong password 400
  \<open>Invalid password\<close>.  The variant with inline models answers both requests 401
  \<open>Invalid credentials\<close>.
\<close>

theorem login_failures_differ:
  "User_findOne db1 ''nobody'' = None
   \<and> post_login toy_compare db1 (Some ''nobody'', Some ''wrong'') = (Resp 400 (Message ''Invalid username''), db1)
   \<and> User_findOne db1 ''alice'' = Some alice \<and> \<not> toy_compare ''wrong'' (password alice)
   \<and> post_login toy_compare db1 (Some ''alice'', Some ''wrong'') = (Resp 400 (Message ''Invalid password''), db1)
   \<and> post_login_p0 toy_compare db1 (Some ''nobody'', Some ''wrong'') = (Resp 401 (Message ''Invalid credentials''), db1)
   \<and> post_login_p0 toy_compare db1 (Some ''alice'', Some ''wrong'') = (Resp 401 (Message ''Invalid credentials''), db1)"
  by (simp add: post_login_def post_login_p0_def toy_compare_def register_defs example_defs)

text \<open>
  C6.  In every state the main backend can reach, registering the username of an existing
  user is answered 400 \<open>User already exists\<close> and leaves the store, hence that user's
  record, as it was, and no two users share a username.  Registering the same username a
  second time right after a successful registration is answered 400 and changes nothing,
  in the main backend and in the variant with inline models (there for a non-empty
  password); the register handler of that variant keeps usernames distinct as well.
\<close>

theorem duplicate_username_conflict:
  "(reachable valid d \<longrightarrow>
      (\<forall>u\<in>set (users d).
         post_register valid hash d (Some (username u), Some pw) =
           (Resp 400 (Message ''User already exists''), d))
      \<and> distinct (map username (users d)))
   \<and> (\<forall>m d'. post_register valid hash d (Some un, Some pw) = (Resp 200 m, d') \<longrightarrow>
         post_register valid hash' d' (Some un, Some pw') =
           (Resp 400 (Message ''User already exists''), d'))
   \<and> (\<forall>m d'. post_register_p0 hash d (Some un, Some pw) = (Resp 201 m, d') \<and> pw' \<noteq> [] \<longrightarrow>
         post_register_p0 hash' d' (Some un, Some pw') =
           (Resp 400 (Message ''Username already exists''), d'))
   \<and> (distinct (map username (users d)) \<longrightarrow>
         distinct (map username (users (snd (post_register_p0 hash d req)))))"
proof -
  have same: "post_register valid hash d (Some (username u), Some pw) =
           (Resp 400 (Message ''User already exists''), d)"
    if r: "reachable valid d" and u: "u \<in> set (users d)" for u
  proof -
    from r have inv: "unique_users d" "usernames_trimmed d"
      using reachable_invariant by blast+
    from inv(2) u have "trim (username u) = username u"
      by (simp add: usernames_trimmed_def list_all_iff)
    moreover have "User_findOne d (username u) = Some u"
      using inv(1) u by (rule User_findOne_member)
    ultimately show ?thesis by (simp add: post_register_conflict)
  qed
  have uniq: "distinct (map username (users d))" if "reachable valid d"
    using reachable_invariant [OF that] by (simp add: unique_users_def)
  have c1: "reachable valid d \<longrightarrow>
      (\<forall>u\<in>set (users d).
         post_register valid hash d (Some (username u), Some pw) =
           (Resp 400 (Message ''User already exists''), d))
      \<and> distinct (map username (users d))"
    using same uniq by simp
  have c2: "\<forall>m d'. post_register valid hash d (Some un, Some pw) = (Resp 200 m, d') \<longrightarrow>
         post_register valid hash' d' (Some un, Some pw') =
           (Resp 400 (Message ''User already exists''), d')"
    by (intro allI impI) (rule post_register_twice)
  have c3: "\<forall>m d'. post_register_p0 hash d (Some un, Some pw) = (Resp 201 m, d') \<and> pw' \<noteq> [] \<longrightarrow>
         post_register_p0 hash' d' (Some un, Some pw') =
           (Resp 400 (Message ''Username already exists''), d')"
    by (intro allI impI, elim conjE) (rule post_register_p0_twice)
  have c4: "distinct (map username (users d)) \<longrightarrow>
         distinct (map username (users (snd (post_register_p0 hash d req))))"
    by (intro impI) (rule post_register_p0_distinct)
  from c1 c2 c3 c4 show ?thesis by (intro conjI)
qed

theorem duplicate_username_conflict_witness:
  "reachable both_required db_alice \<and> alice \<in> set (users db_alice)
   \<and> post_register both_required toy_hash db_alice (Some ''alice'', Some ''other'') =
       (Resp 400 (Message ''User already exists''), db_alice)
   \<and> post_register both_required toy_hash empty_db (Some '' alice '', Some ''pw1'') =
       (Resp 200 (Message ''User registered successfully''), db_alice)
   \<and> post_register both_required toy_hash db_alice (Some '' alice '', Some ''other'') =
       (Resp 400 (Message ''User already exists''), db_alice)
   \<and> post_register_p0 toy_hash empty_db (Some '' alice '', Some ''pw1'') =
       (Resp 201 (Message ''User created successfully''), db_alice)
   \<and> post_register_p0 toy_hash db_alice (Some '' alice '', Some ''other'') =
       (Resp 400 (Message ''Username already exists''), db_alice)
   \<and> distinct (map username (users db_alice))
   \<and> distinct (map username (users (snd (post_register_p0 toy_hash db_alice (Some ''bob'', Some ''pw2'')))))"
  using duplicate_username_conflict [of both_required db_alice toy_hash "''other''" "'' alice ''"
      toy_hash "''other''" "(Some ''bob'', Some ''pw2'')"]
    reachable_db_alice
  by (simp add: register_defs example_defs db_alice_def)

section \<open>Claims about recording crushes\<close>

lemma post_crush_appends:
  "n \<noteq> [] \<Longrightarrow>
   post_crush d (Some n, Some (Hex24 i)) =
     (Resp 200 (CrushDoc \<lparr>crush_id = next_id d, name = n, userId = i\<rparr>),
      d\<lparr>crushes := crushes d @ [\<lparr>crush_id = next_id d, name = n, userId = i\<rparr>],
        next_id := Suc (next_id d)\<rparr>)"
  by (simp add: post_crush_def Let_def)

lemma matches_count:
  assumes "unique_users d" and "a \<in> set (users d)" and "b \<in> set (users d)"
    and "cb \<in> set (crushes d)" and "userId cb = user_id b" and "name cb = username a"
  shows "get_matches d (Hex24 (user_id a)) =
           (Resp 200 (Matches (filter (reciprocated d a) (map name (Crush_find d (user_id a))))), d)
       \<and> count_list (filter (reciprocated d a) (map name (Crush_find d (user_id a)))) (username b) =
           length (filter (\<lambda>c. userId c = user_id a \<and> name c = username b) (crushes d))"
proof -
  have "User_findById d (user_id a) = Some a"
    using assms(1,2) by (rule User_findById_member)
  moreover have "reciprocated d a (username b)"
    using assms(1,3,4,5,6) by (rule reciprocated_member)
  ultimately show ?thesis
    by (simp add: get_matches_registered count_list_filter count_list_names)
qed

text \<open>
  C7.  Recording a name is never refused because it was recorded before: two successive
  \<open>POST /api/crush\<close> requests of one owner with the same non-empty name are both
  answered 200, both new crushes are stored, and \<open>GET /api/crush/:userId\<close> lists both
  after the owner's earlier crushes.  In a store with unique users, when a registered b
  recorded the username of a registered a, the matches of a contain the username of b as
  many times as a recorded it.
\<close>

theorem duplicate_crushes_preserved:
  assumes "n \<noteq> []"
    and "c1 = \<lparr>crush_id = next_id d, name = n, userId = i\<rparr>"
    and "c2 = \<lparr>crush_id = Suc (next_id d), name = n, userId = i\<rparr>"
    and "d1 = snd (post_crush d (Some n, Some (Hex24 i)))"
    and "d2 = snd (post_crush d1 (Some n, Some (Hex24 i)))"
  shows "fst (post_crush d (Some n, Some (Hex24 i))) = Resp 200 (CrushDoc c1)
       \<and> fst (post_crush d1 (Some n, Some (Hex24 i))) = Resp 200 (CrushDoc c2)
       \<and> crushes d2 = crushes d @ [c1, c2]
       \<and> fst (get_crush d2 (Hex24 i)) = Resp 200 (CrushDocs (Crush_find d i @ [c1, c2]))
       \<and> (\<forall>a b cb. unique_users e \<and> a \<in> set (users e) \<and> b \<in> set (users e)
             \<and> cb \<in> set (crushes e) \<and> userId cb = user_id b \<and> name cb = username a \<longrightarrow>
           (\<exists>ms. fst (get_matches e (Hex24 (user_id a))) = Resp 200 (Matches ms)
              \<and> count_list ms (username b) =
                  length (filter (\<lambda>c. userId c = user_id a \<and> name c = username b) (crushes e))))"
proof -
  have r1: "post_crush d (Some n, Some (Hex24 i)) =
      (Resp 200 (CrushDoc c1), d\<lparr>crushes := crushes d @ [c1], next_id := Suc (next_id d)\<rparr>)"
    using assms(1) by (simp add: post_crush_appends assms(2))
  then have d1: "d1 = d\<lparr>crushes := crushes d @ [c1], next_id := Suc (next_id d)\<rparr>"
    by (simp add: assms(4))
  have r2: "post_crush d1 (Some n, Some (Hex24 i)) =
      (Resp 200 (CrushDoc c2), d1\<lparr>crushes := crushes d1 @ [c2], next_id := Suc (next_id d1)\<rparr>)"
    using assms(1) by (simp add: post_crush_appends assms(3) d1)
  then have d2: "crushes d2 = crushes d @ [c1, c2]"
    by (simp add: assms(5) d1)
  have own: "userId c1 = i" "userId c2 = i"
    by (simp_all add: assms(2,3))
  have listed: "fst (get_crush d2 (Hex24 i)) = Resp 200 (CrushDocs (Crush_find d i @ [c1, c2]))"
    by (simp add: get_crush_def Crush_find_def d2 own)
  have counted: "\<exists>ms. fst (get_matches e (Hex24 (user_id a))) = Resp 200 (Matches ms)
              \<and> count_list ms (username b) =
                  length (filter (\<lambda>c. userId c = user_id a \<and> name c = username b) (crushes e))"
    if "unique_users e" "a \<in> set (users e)" "b \<in> set (users e)"
       "cb \<in> set (crushes e)" "userId cb = user_id b" "name cb = username a" for a b cb
    using matches_count [OF that] by simp
  from r1 r2 d2 listed counted show ?thesis by (simp only: fst_conv) blast
qed

theorem duplicate_crushes_preserved_witness:
  "fst (post_crush db_alice (Some ''bob'', Some (Hex24 0))) =
     Resp 200 (CrushDoc \<lparr>crush_id = 1, name = ''bob'', userId = 0\<rparr>)
   \<and> fst (post_crush (snd (post_crush db_alice (Some ''bob'', Some (Hex24 0)))) (Some ''bob'', Some (Hex24 0))) =
     Resp 200 (CrushDoc \<lparr>crush_id = 2, name = ''bob'', userId = 0\<rparr>)
   \<and> fst (get_crush (snd (post_crush (snd (post_crush db_alice (Some ''bob'', Some (Hex24 0))))
                                      (Some ''bob'', Some (Hex24 0)))) (Hex24 0)) =
     Resp 200 (CrushDocs [\<lparr>crush_id = 1, name = ''bob'', userId = 0\<rparr>,
                          \<lparr>crush_id = 2, name = ''bob'', userId = 0\<rparr>])
   \<and> unique_users db1 \<and> alice \<in> set (users db1) \<and> bob \<in> set (users db1)
   \<and> fst (get_matches db1 (Hex24 0)) = Resp 200 (Matches [''bob'', ''bob''])
   \<and> count_list [''bob'', ''bob''] ''bob'' = 2
   \<and> length (filter (\<lambda>c. userId c = 0 \<and> name c = ''bob'') (crushes db1)) = 2"
  using duplicate_crushes_preserved [of "''bob''" "\<lparr>crush_id = 1, name = ''bob'', userId = 0\<rparr>" db_alice 0
      "\<lparr>crush_id = 2, name = ''bob'', userId = 0\<rparr>"
      "snd (post_crush db_alice (Some ''bob'', Some (Hex24 0)))"
      "snd (post_crush (snd (post_crush db_alice (Some ''bob'', Some (Hex24 0)))) (Some ''bob'', Some (Hex24 0)))"
      db1]
  by (simp add: example_defs db_alice_def post_crush_def unique_users_def)

end
